theory Spec2Isabelle
  imports Main "HOL-Library.Sublist"
begin

section \<open>playwright-request-mocker: the recorder (src/recorder.ts)\<close>

text \<open>
  The recorder has two functions. \<open>readHarFile\<close> reads a HAR file, filters its entries and
  turns the remaining ones into mock records; \<open>recordHar\<close> drives a browsing session that
  records the HAR file, then reads it, writes the mock file and removes the HAR file.

  JavaScript strings are modelled as \<open>string\<close>; the model is meant for ASCII text, where a
  \<open>char\<close> is one code unit.
\<close>

subsection \<open>The string operations the recorder uses\<close>

text \<open>
  \<open>find_first pat s\<close> splits \<open>s\<close> around the first occurrence of \<open>pat\<close>. It carries
  \<open>String.prototype.includes\<close> and \<open>String.prototype.replace\<close> with a string pattern, which
  replaces the first occurrence only (the replacement texts of the recorder hold no \<open>$\<close>).
\<close>

fun find_first :: "string \<Rightarrow> string \<Rightarrow> (string \<times> string) option" where
  "find_first pat [] = (if pat = [] then Some ([], []) else None)"
| "find_first pat (c # cs) =
     (if prefix pat (c # cs) then Some ([], drop (length pat) (c # cs))
      else map_option (\<lambda>(a, b). (c # a, b)) (find_first pat cs))"

definition includes_str :: "string \<Rightarrow> string \<Rightarrow> bool" where
  "includes_str s pat = (find_first pat s \<noteq> None)"

definition replace :: "string \<Rightarrow> string \<Rightarrow> string \<Rightarrow> string" where
  "replace s pat rep = (case find_first pat s of None \<Rightarrow> s | Some (a, b) \<Rightarrow> a @ rep @ b)"

text \<open>\<open>s.split("/")[0]\<close>: the text before the first slash, the whole of \<open>s\<close> when it has none.\<close>

definition split_first :: "char \<Rightarrow> string \<Rightarrow> string" where
  "split_first sep s = takeWhile (\<lambda>c. c \<noteq> sep) s"

text \<open>
  In a regular expression without flags the dot matches every character but a line
  terminator. \<open>dot_then lit s\<close> is \<open>/.lit/.test(s)\<close> for a literal \<open>lit\<close>: somewhere in
  \<open>s\<close> a character the dot matches is followed by \<open>lit\<close>.
\<close>

definition dot_matches :: "char \<Rightarrow> bool" where
  "dot_matches c = (c \<noteq> CHR 0x0A \<and> c \<noteq> CHR 0x0D)"

fun dot_then :: "string \<Rightarrow> string \<Rightarrow> bool" where
  "dot_then lit [] = False"
| "dot_then lit (c # cs) = ((dot_matches c \<and> prefix lit cs) \<or> dot_then lit cs)"

text \<open>Line 26: \<open>/(.png)|(.jpeg)|(.webp)|(.jpg)|(.gif)|(.css)|(.js)|(.woff2)/.test(url)\<close>.\<close>

definition asset_extensions :: "string list" where
  "asset_extensions = [''png'', ''jpeg'', ''webp'', ''jpg'', ''gif'', ''css'', ''js'', ''woff2'']"

definition test_asset_url :: "string \<Rightarrow> bool" where
  "test_asset_url url = list_ex (\<lambda>ext. dot_then ext url) asset_extensions"

text \<open>Line 29: \<open>/(image)|(font)|(javascript)/.test(mimeType)\<close>.\<close>

definition asset_mime_words :: "string list" where
  "asset_mime_words = [''image'', ''font'', ''javascript'']"

definition test_asset_mime :: "string \<Rightarrow> bool" where
  "test_asset_mime mime = list_ex (\<lambda>w. includes_str mime w) asset_mime_words"

subsection \<open>Built-ins: \<open>JSON.parse\<close> and base64 decoding\<close>

text \<open>
  A parsed JSON value, carried as the syntax \<open>JSON.parse\<close> read: a number is kept as its
  literal, a string as the text between its quotes (escape sequences checked, not decoded),
  an object as its members in the order of the text, repeated keys included. What the model
  shares with \<open>JSON.parse\<close> is which texts are accepted, and that the value is a function of
  the text; the recorder never looks inside a value.
\<close>

datatype json =
    JNull
  | JBool bool
  | JNumber string
  | JString string
  | JArray "json list"
  | JObject "(string \<times> json) list"

definition is_ws :: "char \<Rightarrow> bool" where
  "is_ws c = (c = CHR 0x20 \<or> c = CHR 0x09 \<or> c = CHR 0x0A \<or> c = CHR 0x0D)"

definition skip_ws :: "string \<Rightarrow> string" where
  "skip_ws s = dropWhile is_ws s"

definition is_digit :: "char \<Rightarrow> bool" where
  "is_digit c = (c \<in> set ''0123456789'')"

definition is_hex :: "char \<Rightarrow> bool" where
  "is_hex c = (c \<in> set ''0123456789abcdefABCDEF'')"

text \<open>The digits of a number part: at least one digit.\<close>

definition lex_digits :: "string \<Rightarrow> (string \<times> string) option" where
  "lex_digits s =
     (let ds = takeWhile is_digit s in if ds = [] then None else Some (ds, dropWhile is_digit s))"

definition lex_int :: "string \<Rightarrow> (string \<times> string) option" where
  "lex_int s =
     (case s of
        [] \<Rightarrow> None
      | c # cs \<Rightarrow> if c = CHR ''0'' then Some ([c], cs) else lex_digits s)"

definition lex_frac :: "string \<Rightarrow> (string \<times> string) option" where
  "lex_frac s =
     (case s of
        [] \<Rightarrow> Some ([], s)
      | c # cs \<Rightarrow>
          if c = CHR ''.'' then map_option (\<lambda>(ds, r). (c # ds, r)) (lex_digits cs)
          else Some ([], s))"

definition lex_sign :: "string \<Rightarrow> string \<times> string" where
  "lex_sign s =
     (case s of
        [] \<Rightarrow> ([], s)
      | c # cs \<Rightarrow> if c = CHR ''+'' \<or> c = CHR ''-'' then ([c], cs) else ([], s))"

definition lex_exp :: "string \<Rightarrow> (string \<times> string) option" where
  "lex_exp s =
     (case s of
        [] \<Rightarrow> Some ([], s)
      | c # cs \<Rightarrow>
          if c = CHR ''e'' \<or> c = CHR ''E''
          then (case lex_sign cs of
                  (sg, r) \<Rightarrow> map_option (\<lambda>(ds, r'). (c # sg @ ds, r')) (lex_digits r))
          else Some ([], s))"

definition lex_number :: "string \<Rightarrow> (string \<times> string) option" where
  "lex_number s =
     (let (minus, r0) = (case s of
                           [] \<Rightarrow> ([], s)
                         | c # cs \<Rightarrow> if c = CHR ''-'' then ([c], cs) else ([], s))
      in case lex_int r0 of
           None \<Rightarrow> None
         | Some (i, r1) \<Rightarrow>
             (case lex_frac r1 of
                None \<Rightarrow> None
              | Some (f, r2) \<Rightarrow>
                  (case lex_exp r2 of
                     None \<Rightarrow> None
                   | Some (e, r3) \<Rightarrow> Some (minus @ i @ f @ e, r3))))"

text \<open>The rest of a string literal, after its opening quote, up to the closing quote.\<close>

fun lex_string :: "string \<Rightarrow> (string \<times> string) option" where
  "lex_string [] = None"
| "lex_string (c # cs) =
     (if c = CHR 0x22 then Some ([], cs)
      else if c = CHR 0x5C then
        (case cs of
           [] \<Rightarrow> None
         | d # ds \<Rightarrow>
             if d \<in> set [CHR 0x22, CHR 0x5C, CHR ''/'', CHR ''b'', CHR ''f'', CHR ''n'', CHR ''r'', CHR ''t'']
             then map_option (\<lambda>(t, r). (c # d # t, r)) (lex_string ds)
             else if d = CHR ''u'' \<and> 4 \<le> length ds \<and> list_all is_hex (take 4 ds)
             then map_option (\<lambda>(t, r). (c # d # take 4 ds @ t, r)) (lex_string (drop 4 ds))
             else None)
      else if (of_char c :: nat) < 32 then None
      else map_option (\<lambda>(t, r). (c # t, r)) (lex_string cs))"

text \<open>
  The recursive descent, with fuel for the nesting: \<open>parse_value\<close> reads one value,
  \<open>parse_elements\<close> the elements of an array after its bracket, \<open>parse_members\<close> the members
  of an object after its brace. Of two nested calls at least one reads a character, so twice
  the length of the text is fuel enough.
\<close>

fun parse_value :: "nat \<Rightarrow> string \<Rightarrow> (json \<times> string) option"
  and parse_elements :: "nat \<Rightarrow> string \<Rightarrow> (json list \<times> string) option"
  and parse_members :: "nat \<Rightarrow> string \<Rightarrow> ((string \<times> json) list \<times> string) option"
where
  "parse_value 0 s = None"
| "parse_value (Suc n) s =
     (case skip_ws s of
        [] \<Rightarrow> None
      | c # cs \<Rightarrow>
          if c = CHR ''{'' then
            (case skip_ws cs of
               [] \<Rightarrow> None
             | d # ds \<Rightarrow>
                 if d = CHR ''}'' then Some (JObject [], ds)
                 else map_option (\<lambda>(ms, r). (JObject ms, r)) (parse_members n cs))
          else if c = CHR ''['' then
            (case skip_ws cs of
               [] \<Rightarrow> None
             | d # ds \<Rightarrow>
                 if d = CHR '']'' then Some (JArray [], ds)
                 else map_option (\<lambda>(vs, r). (JArray vs, r)) (parse_elements n cs))
          else if c = CHR 0x22 then map_option (\<lambda>(t, r). (JString t, r)) (lex_string cs)
          else if prefix ''true'' (c # cs) then Some (JBool True, drop 4 (c # cs))
          else if prefix ''false'' (c # cs) then Some (JBool False, drop 5 (c # cs))
          else if prefix ''null'' (c # cs) then Some (JNull, drop 4 (c # cs))
          else map_option (\<lambda>(t, r). (JNumber t, r)) (lex_number (c # cs)))"
| "parse_elements 0 s = None"
| "parse_elements (Suc n) s =
     (case parse_value n s of
        None \<Rightarrow> None
      | Some (v, r) \<Rightarrow>
          (case skip_ws r of
             [] \<Rightarrow> None
           | c # cs \<Rightarrow>
               if c = CHR '','' then map_option (\<lambda>(vs, r'). (v # vs, r')) (parse_elements n cs)
               else if c = CHR '']'' then Some ([v], cs)
               else None))"
| "parse_members 0 s = None"
| "parse_members (Suc n) s =
     (case skip_ws s of
        [] \<Rightarrow> None
      | q # qs \<Rightarrow>
          if q \<noteq> CHR 0x22 then None
          else
            (case lex_string qs of
               None \<Rightarrow> None
             | Some (k, r0) \<Rightarrow>
                 (case skip_ws r0 of
                    [] \<Rightarrow> None
                  | c # cs \<Rightarrow>
                      if c \<noteq> CHR '':'' then None
                      else
                        (case parse_value n cs of
                           None \<Rightarrow> None
                         | Some (v, r1) \<Rightarrow>
                             (case skip_ws r1 of
                                [] \<Rightarrow> None
                              | d # ds \<Rightarrow>
                                  if d = CHR '','' then
                                    map_option (\<lambda>(ms, r'). ((k, v) # ms, r')) (parse_members n ds)
                                  else if d = CHR ''}'' then Some ([(k, v)], ds)
                                  else None)))))"

text \<open>
  \<open>JSON.parse\<close>: \<open>None\<close> stands for the \<open>SyntaxError\<close> it throws. The whole text must be
  one value between optional white space.
\<close>

definition JSON_parse :: "string \<Rightarrow> json option" where
  "JSON_parse s =
     (case parse_value (2 * length s + 2) s of
        None \<Rightarrow> None
      | Some (v, r) \<Rightarrow> if skip_ws r = [] then Some v else None)"

text \<open>
  \<open>Buffer.from(text, "base64").toString()\<close>. Node reads the standard and the URL-safe
  alphabet, skips every other character and stops at the first \<open>=\<close>; four sextets give
  three bytes, three give two, two give one. Each byte is read back as one character: this
  is \<open>toString()\<close> on ASCII bodies, and leaves the UTF-8 decoding of other bytes out.
\<close>

definition base64_alphabet :: string where
  "base64_alphabet = ''ABCDEFGHIJKLMNOPQRSTUVWXYZabcdefghijklmnopqrstuvwxyz0123456789+/''"

fun index_of :: "char \<Rightarrow> string \<Rightarrow> nat option" where
  "index_of c [] = None"
| "index_of c (d # ds) = (if c = d then Some 0 else map_option Suc (index_of c ds))"

definition unbase64 :: "char \<Rightarrow> nat option" where
  "unbase64 c =
     (if c = CHR ''-'' then Some 62 else if c = CHR ''_'' then Some 63
      else index_of c base64_alphabet)"

definition sextets :: "string \<Rightarrow> nat list" where
  "sextets s = List.map_filter unbase64 (takeWhile (\<lambda>c. c \<noteq> CHR ''='') s)"

fun bytes_of :: "nat list \<Rightarrow> nat list" where
  "bytes_of (a # b # c # d # r) =
     (a * 4 + b div 16) # ((b mod 16) * 16 + c div 4) # ((c mod 4) * 64 + d) # bytes_of r"
| "bytes_of [a, b, c] = [a * 4 + b div 16, (b mod 16) * 16 + c div 4]"
| "bytes_of [a, b] = [a * 4 + b div 16]"
| "bytes_of r = []"

definition base64_toString :: "string \<Rightarrow> string" where
  "base64_toString s = map char_of (bytes_of (sextets s))"

subsection \<open>The HAR document and the mock record (the types of \<open>./models\<close>)\<close>

text \<open>
  \<open>./models\<close> holds type declarations only and is not among the sources; these are the
  fields of a HAR entry the recorder reads. \<open>postData\<close> and the two \<open>text\<close> fields may be
  absent. The request is carried whole into the mock record.
\<close>

record PostData =
  postData_text :: "string option"

record Request =
  request_method :: string
  request_url :: string
  postData :: "PostData option"

record Content =
  mimeType :: string
  content_text :: "string option"

record Response =
  response_status :: int
  content :: Content

record Entry =
  entry_request :: Request
  entry_response :: Response

record Log =
  entries :: "Entry list"

record HAR =
  log :: Log

record RecordRequest =
  url :: string
  request :: Request
  requestData :: json
  response :: json

subsection \<open>Errors, promises and the outside world\<close>

text \<open>
  \<open>Failure\<close> is an error raised by a collaborator (the browser, the file system, a helper of
  \<open>./utils\<close>), named by a tag.
\<close>

datatype error = TypeError | SyntaxError | Failure string

text \<open>
  A promise is fulfilled, rejected, or never settled: \<open>Uncaught e\<close> is the promise whose
  asynchronous callback threw \<open>e\<close>. Such an exception is raised outside the promise's
  executor, so it rejects nothing: it reaches the process as an uncaught exception and an
  \<open>await\<close> on the promise never resumes.
\<close>

datatype 'a promise = Resolved 'a | Rejected error | Uncaught error

definition fulfilled :: "'a promise \<Rightarrow> bool" where
  "fulfilled p = (case p of Resolved x \<Rightarrow> True | Rejected e \<Rightarrow> False | Uncaught e \<Rightarrow> False)"

text \<open>
  What \<open>fs.readFile\<close> hands to its callback, with the outcome of \<open>JSON.parse\<close> on the data:
  an error, data that are not JSON, JSON without \<open>log.entries\<close>, or a HAR document.
\<close>

datatype document = NotJSON | NotHAR | HarDoc HAR

datatype read_result = ReadError error | Data document

text \<open>The calls the recorder makes on the outside world, in the order it makes them.\<close>

datatype event =
    LaunchPersistentContext string
  | NewPage
  | Goto string
  | SetHttpLogs
  | Pause
  | Close
  | WaitForFileExists string
  | ReadFile string
  | WriteFile string "RecordRequest list"
  | RemoveFile string
  | ConsoleLog string
  | ConsoleError error

text \<open>
  The collaborators are parameters of the model: Playwright's browser, \<open>fs.readFile\<close> and the
  helpers of \<open>./utils\<close>. Each acts on a world \<open>'w\<close> of its own and fulfils (\<open>None\<close>) or
  fails (\<open>Some e\<close>). \<open>launchPersistentContext\<close> is given the \<open>recordHar.path\<close> option.
  \<open>setHttpLogs\<close> is the one call that is not awaited (line 72): its \<open>Some e\<close> is an
  exception the call itself throws. A promise it may return is dropped, so a rejection of
  that promise never reaches \<open>recordHar\<close> and is not part of the model.
\<close>

type_synonym 'w effect = "'w \<Rightarrow> error option \<times> 'w"

record 'w collaborators =
  launchPersistentContext :: "string \<Rightarrow> 'w effect"
  newPage :: "'w effect"
  goto :: "string \<Rightarrow> 'w effect"
  setHttpLogs :: "'w effect"
  pause :: "'w effect"
  close :: "'w effect"
  waitForFileExists :: "string \<Rightarrow> 'w effect"
  fs_readFile :: "string \<Rightarrow> 'w \<Rightarrow> read_result"
  writeFile :: "string \<Rightarrow> RecordRequest list \<Rightarrow> 'w effect"
  removeFile :: "string \<Rightarrow> 'w effect"

text \<open>The state of a run: the world and the calls made so far.\<close>

type_synonym 'w state = "'w \<times> event list"

definition perform :: "event \<Rightarrow> 'w effect \<Rightarrow> 'w state \<Rightarrow> error option \<times> 'w state" where
  "perform ev f s = (case f (fst s) of (r, w') \<Rightarrow> (r, (w', snd s @ [ev])))"

definition note_event :: "event \<Rightarrow> 'w state \<Rightarrow> 'w state" where
  "note_event ev s = (fst s, snd s @ [ev])"

subsection \<open>\<open>readHarFile\<close> (lines 13 to 48)\<close>

text \<open>
  Modelled from the spec: \<open>endpointOfUrl\<close> is a helper of \<open>./utils\<close>, which is not among the
  sources. The spec gives it as the path component of the request URL, with scheme, host
  and query stripped: the text from the first slash after \<open>://\<close> up to the query or fragment.
\<close>

definition endpointOfUrl :: "string \<Rightarrow> string" where
  "endpointOfUrl u =
     (let after_scheme = (case find_first ''://'' u of None \<Rightarrow> u | Some (scheme, r) \<Rightarrow> r)
      in takeWhile (\<lambda>c. c \<noteq> CHR ''?'' \<and> c \<noteq> CHR ''#'')
           (dropWhile (\<lambda>c. c \<noteq> CHR ''/'' \<and> c \<noteq> CHR ''?'' \<and> c \<noteq> CHR ''#'') after_scheme))"

text \<open>The callback of \<open>filter\<close> (lines 21 to 31).\<close>

definition keeps :: "string \<Rightarrow> Entry \<Rightarrow> bool" where
  "keeps host e =
     (let url = request_url (entry_request e)
      in \<not> includes_str url host \<and>
         \<not> test_asset_url url \<and>
         \<not> test_asset_mime (mimeType (content (entry_response e))))"

text \<open>
  \<open>x || "{}"\<close> and \<open>x ? f(x) : "{}"\<close> on an optional string: the absent and the empty string
  are both falsy.
\<close>

definition truthy :: "string option \<Rightarrow> string option" where
  "truthy t = (case t of None \<Rightarrow> None | Some x \<Rightarrow> if x = [] then None else Some x)"

text \<open>Line 40: \<open>request?.postData?.text\<close>, then \<open>|| "{}"\<close>.\<close>

definition postDataText :: "Request \<Rightarrow> string option" where
  "postDataText r = (case postData r of None \<Rightarrow> None | Some pd \<Rightarrow> postData_text pd)"

definition requestText :: "Request \<Rightarrow> string" where
  "requestText r = (case truthy (postDataText r) of None \<Rightarrow> ''{}'' | Some t \<Rightarrow> t)"

text \<open>Lines 33 to 35.\<close>

definition responseString :: "Response \<Rightarrow> string" where
  "responseString r =
     (case truthy (content_text (content r)) of
        None \<Rightarrow> ''{}''
      | Some t \<Rightarrow> base64_toString t)"

text \<open>
  The callback of \<open>map\<close> (lines 32 to 43). The fields are evaluated in order, and either
  \<open>JSON.parse\<close> may throw.
\<close>

definition toRecord :: "Entry \<Rightarrow> error + RecordRequest" where
  "toRecord e =
     (case JSON_parse (requestText (entry_request e)) of
        None \<Rightarrow> Inl SyntaxError
      | Some rd \<Rightarrow>
          (case JSON_parse (responseString (entry_response e)) of
             None \<Rightarrow> Inl SyntaxError
           | Some rs \<Rightarrow>
               Inr \<lparr>url = endpointOfUrl (request_url (entry_request e)),
                    request = entry_request e,
                    requestData = rd,
                    response = rs\<rparr>))"

text \<open>\<open>Array.prototype.map\<close> with a callback that may throw: the first exception ends it.\<close>

fun map_throwing :: "('a \<Rightarrow> error + 'b) \<Rightarrow> 'a list \<Rightarrow> error + 'b list" where
  "map_throwing f [] = Inr []"
| "map_throwing f (x # xs) =
     (case f x of
        Inl e \<Rightarrow> Inl e
      | Inr y \<Rightarrow> (case map_throwing f xs of Inl e \<Rightarrow> Inl e | Inr ys \<Rightarrow> Inr (y # ys)))"

text \<open>Lines 20 to 43: the value of \<open>xgrRequests\<close>, or the exception thrown on the way.\<close>

definition xgrRequests :: "string \<Rightarrow> Entry list \<Rightarrow> error + RecordRequest list" where
  "xgrRequests host es = map_throwing toRecord (filter (keeps host) es)"

text \<open>
  The promise \<open>readHarFile\<close> returns. A read error rejects it (line 16). Everything after
  that runs inside the callback of \<open>fs.readFile\<close>, so an exception there (from \<open>JSON.parse\<close>
  on the file, from \<open>result.log.entries\<close>, from the \<open>JSON.parse\<close> of a body) leaves the
  promise unsettled.
\<close>

definition readHarFile ::
  "'w collaborators \<Rightarrow> string \<Rightarrow> string \<Rightarrow> 'w state \<Rightarrow> RecordRequest list promise \<times> 'w state"
where
  "readHarFile C path host s =
     ((case fs_readFile C path (fst s) of
         ReadError err \<Rightarrow> Rejected err
       | Data NotJSON \<Rightarrow> Uncaught SyntaxError
       | Data NotHAR \<Rightarrow> Uncaught TypeError
       | Data (HarDoc result) \<Rightarrow>
           (case xgrRequests host (entries (log result)) of
              Inl e \<Rightarrow> Uncaught e
            | Inr requests \<Rightarrow> Resolved requests)),
      note_event (ReadFile path) s)"

subsection \<open>\<open>recordHar\<close> (lines 50 to 102)\<close>

text \<open>Line 88: \<open>route.replace("https://", "").replace("http://", "").split("/")[0]\<close>.\<close>

definition hostOfRoute :: "string \<Rightarrow> string" where
  "hostOfRoute route = split_first (CHR ''/'') (replace (replace route ''https://'' []) ''http://'' [])"

text \<open>Line 55.\<close>

definition harPathOf :: "string \<Rightarrow> string" where
  "harPathOf filePath = replace filePath ''.json'' ''.temp.har''"

text \<open>
  Lines 57 to 77, the browsing session: launch with HAR recording to \<open>harPath\<close>, open a page,
  go to the route, switch the HTTP logs on when asked, wait for the operator, close. None of
  it stands in a \<open>try\<close>: the first failure of an awaited call, or an exception thrown by
  the call of \<open>setHttpLogs\<close>, is the result.
\<close>

definition session :: "'w collaborators \<Rightarrow> string \<Rightarrow> string \<Rightarrow> bool \<Rightarrow> 'w state \<Rightarrow> error option \<times> 'w state" where
  "session C route harPath logRecording s =
     (case perform (LaunchPersistentContext harPath) (launchPersistentContext C harPath) s of
        (Some e, s1) \<Rightarrow> (Some e, s1)
      | (None, s1) \<Rightarrow>
     (case perform NewPage (newPage C) s1 of
        (Some e, s2) \<Rightarrow> (Some e, s2)
      | (None, s2) \<Rightarrow>
     (case perform (Goto route) (goto C route) s2 of
        (Some e, s3) \<Rightarrow> (Some e, s3)
      | (None, s3) \<Rightarrow>
     (case (if logRecording then perform SetHttpLogs (setHttpLogs C) s3 else (None, s3)) of
        (Some e, s4) \<Rightarrow> (Some e, s4)
      | (None, s4) \<Rightarrow>
     (case perform Pause (pause C) (note_event (ConsoleLog ''Recording requests'') s4) of
        (Some e, s5) \<Rightarrow> (Some e, s5)
      | (None, s5) \<Rightarrow> perform Close (close C) s5)))))"

text \<open>
  Lines 95 to 101: the \<open>catch\<close> block logs the error and removes the HAR file; then the
  function returns \<open>requests\<close> as it stands. A failing removal here is the function's own
  failure.
\<close>

definition catch_block ::
  "'w collaborators \<Rightarrow> string \<Rightarrow> error \<Rightarrow> RecordRequest list \<Rightarrow> 'w state \<Rightarrow> RecordRequest list promise \<times> 'w state"
where
  "catch_block C harPath e requests s =
     (case perform (RemoveFile harPath) (removeFile C harPath) (note_event (ConsoleError e) s) of
        (Some e', s') \<Rightarrow> (Rejected e', s')
      | (None, s') \<Rightarrow> (Resolved requests, s'))"

text \<open>
  Lines 79 to 101. \<open>requests\<close> starts empty and is assigned when \<open>readHarFile\<close> resolves, so
  a later failure leaves it assigned. When the promise of \<open>readHarFile\<close> never settles the
  \<open>await\<close> never resumes: neither the rest of the \<open>try\<close> nor the \<open>catch\<close> runs.
\<close>

definition try_block ::
  "'w collaborators \<Rightarrow> string \<Rightarrow> string \<Rightarrow> string \<Rightarrow> 'w state \<Rightarrow> RecordRequest list promise \<times> 'w state"
where
  "try_block C route filePath harPath s =
     (case perform (WaitForFileExists filePath) (waitForFileExists C filePath)
             (note_event (ConsoleLog ''Processing recording...'') s) of
        (Some e, s1) \<Rightarrow> catch_block C harPath e [] s1
      | (None, s1) \<Rightarrow>
     (case readHarFile C harPath (hostOfRoute route) s1 of
        (Rejected e, s2) \<Rightarrow> catch_block C harPath e [] s2
      | (Uncaught e, s2) \<Rightarrow> (Uncaught e, s2)
      | (Resolved requests, s2) \<Rightarrow>
     (case perform (WriteFile filePath requests) (writeFile C filePath requests) s2 of
        (Some e, s3) \<Rightarrow> catch_block C harPath e requests s3
      | (None, s3) \<Rightarrow>
     (case perform (RemoveFile harPath) (removeFile C harPath) s3 of
        (Some e, s4) \<Rightarrow> catch_block C harPath e requests s4
      | (None, s4) \<Rightarrow>
          (Resolved requests, note_event (ConsoleLog ''Recording successfully saved!'') s4)))))"

text \<open>
  \<open>recordHar\<close>. \<open>filePath\<close> is optional in the signature; \<open>filePath.replace\<close> on
  \<open>undefined\<close> throws a \<open>TypeError\<close>, which rejects the promise of the async function.
\<close>

definition recordHar ::
  "'w collaborators \<Rightarrow> string \<Rightarrow> string option \<Rightarrow> bool \<Rightarrow> 'w state \<Rightarrow> RecordRequest list promise \<times> 'w state"
where
  "recordHar C route filePath logRecording s =
     (case filePath of
        None \<Rightarrow> (Rejected TypeError, s)
      | Some fp \<Rightarrow>
          (case session C route (harPathOf fp) logRecording s of
             (Some e, s') \<Rightarrow> (Rejected e, s')
           | (None, s') \<Rightarrow> try_block C route fp (harPathOf fp) s'))"

subsection \<open>Example traces and worlds\<close>

text \<open>
  Entries of a recording against \<open>http://localhost:3000\<close>: the page itself, a JSON call to
  another host, an image, a stylesheet served without an extension, a call with a JSON body,
  a form post, a call to the page's own host, and a post whose body text and response text
  are both empty.
\<close>

definition page_entry :: Entry where
  "page_entry =
     \<lparr>entry_request = \<lparr>request_method = ''GET'', request_url = ''http://localhost:3000/index.html'',
                        postData = None\<rparr>,
      entry_response = \<lparr>response_status = 200,
                         content = \<lparr>mimeType = ''text/html'', content_text = Some ''PGh0bWw+''\<rparr>\<rparr>\<rparr>"

definition api_entry :: Entry where
  "api_entry =
     \<lparr>entry_request = \<lparr>request_method = ''GET'', request_url = ''https://api.example.com/api/items?page=1'',
                        postData = None\<rparr>,
      entry_response = \<lparr>response_status = 200,
                         content = \<lparr>mimeType = ''application/json'',
                                    content_text = Some ''eyJpdGVtcyI6W119''\<rparr>\<rparr>\<rparr>"

definition image_entry :: Entry where
  "image_entry =
     \<lparr>entry_request = \<lparr>request_method = ''GET'', request_url = ''https://cdn.example.com/logo.png'',
                        postData = None\<rparr>,
      entry_response = \<lparr>response_status = 200,
                         content = \<lparr>mimeType = ''image/png'', content_text = None\<rparr>\<rparr>\<rparr>"

definition stylesheet_entry :: Entry where
  "stylesheet_entry =
     \<lparr>entry_request = \<lparr>request_method = ''GET'', request_url = ''https://cdn.example.com/theme'',
                        postData = None\<rparr>,
      entry_response = \<lparr>response_status = 304,
                         content = \<lparr>mimeType = ''text/css'', content_text = None\<rparr>\<rparr>\<rparr>"

definition post_entry :: Entry where
  "post_entry =
     \<lparr>entry_request = \<lparr>request_method = ''POST'', request_url = ''https://api.example.com/api/order'',
                        postData = Some \<lparr>postData_text = Some ''[1,2]''\<rparr>\<rparr>,
      entry_response = \<lparr>response_status = 200,
                         content = \<lparr>mimeType = ''application/json'', content_text = Some ''e30=''\<rparr>\<rparr>\<rparr>"

definition form_entry :: Entry where
  "form_entry =
     \<lparr>entry_request = \<lparr>request_method = ''POST'', request_url = ''https://api.example.com/api/login'',
                        postData = Some \<lparr>postData_text = Some ''user=ann&next=home''\<rparr>\<rparr>,
      entry_response = \<lparr>response_status = 200,
                         content = \<lparr>mimeType = ''application/json'', content_text = Some ''e30=''\<rparr>\<rparr>\<rparr>"

definition me_entry :: Entry where
  "me_entry =
     \<lparr>entry_request = \<lparr>request_method = ''GET'', request_url = ''http://localhost:3000/api/me'',
                        postData = None\<rparr>,
      entry_response = \<lparr>response_status = 200,
                         content = \<lparr>mimeType = ''application/json'', content_text = Some ''e30=''\<rparr>\<rparr>\<rparr>"

definition empty_body_entry :: Entry where
  "empty_body_entry =
     \<lparr>entry_request = \<lparr>request_method = ''POST'', request_url = ''https://api.example.com/api/ping'',
                        postData = Some \<lparr>postData_text = Some []\<rparr>\<rparr>,
      entry_response = \<lparr>response_status = 204,
                         content = \<lparr>mimeType = ''application/json'', content_text = Some []\<rparr>\<rparr>\<rparr>"

definition api_record :: RecordRequest where
  "api_record =
     \<lparr>url = ''/api/items'', request = entry_request api_entry, requestData = JObject [],
      response = JObject [(''items'', JArray [])]\<rparr>"

definition post_record :: RecordRequest where
  "post_record =
     \<lparr>url = ''/api/order'', request = entry_request post_entry,
      requestData = JArray [JNumber ''1'', JNumber ''2''], response = JObject []\<rparr>"

definition stylesheet_record :: RecordRequest where
  "stylesheet_record =
     \<lparr>url = ''/theme'', request = entry_request stylesheet_entry, requestData = JObject [],
      response = JObject []\<rparr>"

definition me_record :: RecordRequest where
  "me_record =
     \<lparr>url = ''/api/me'', request = entry_request me_entry, requestData = JObject [],
      response = JObject []\<rparr>"

definition empty_body_record :: RecordRequest where
  "empty_body_record =
     \<lparr>url = ''/api/ping'', request = entry_request empty_body_entry, requestData = JObject [],
      response = JObject []\<rparr>"

definition har_of :: "Entry list \<Rightarrow> HAR" where
  "har_of es = \<lparr>log = \<lparr>entries = es\<rparr>\<rparr>"

definition demo_har :: HAR where
  "demo_har = har_of [page_entry, api_entry, image_entry, post_entry]"

definition form_har :: HAR where
  "form_har = har_of [api_entry, form_entry]"

definition ping_har :: HAR where
  "ping_har = har_of [page_entry, api_entry, post_entry, empty_body_entry]"

text \<open>
  Worlds without a state of their own. In \<open>steady r\<close> every collaborator fulfils and the HAR
  file reads as \<open>r\<close>. In \<open>failing step r\<close> the awaited browser call named \<open>step\<close> fails
  and all else is as in \<open>steady r\<close>.
\<close>

definition always :: "error option \<Rightarrow> 'w effect" where
  "always r w = (r, w)"

definition steady :: "read_result \<Rightarrow> unit collaborators" where
  "steady r =
     \<lparr>launchPersistentContext = (\<lambda>p. always None),
      newPage = always None,
      goto = (\<lambda>u. always None),
      setHttpLogs = always None,
      pause = always None,
      close = always None,
      waitForFileExists = (\<lambda>p. always None),
      fs_readFile = (\<lambda>p w. r),
      writeFile = (\<lambda>p d. always None),
      removeFile = (\<lambda>p. always None)\<rparr>"


text \<open>
  Modelled from the spec: \<open>waitForFileExists\<close> is a helper of \<open>./utils\<close>, which is not among
  the sources. The spec has it fail with \<open>CaptureArtifactMissing\<close> when the file it waits for
  never appears. \<open>har_only harPath r\<close> is a world whose one file is the HAR file at
  \<open>harPath\<close>, reading as \<open>r\<close>: waiting for any other path fails.
\<close>

definition har_only :: "string \<Rightarrow> read_result \<Rightarrow> unit collaborators" where
  "har_only harPath r =
     (steady r)
       \<lparr>waitForFileExists :=
          (\<lambda>p. always (if p = harPath then None else Some (Failure ''CaptureArtifactMissing''))),
        fs_readFile := (\<lambda>p w. if p = harPath then r else ReadError (Failure ''ENOENT''))\<rparr>"

section \<open>Properties\<close>

subsection \<open>Strings and the throwing map\<close>

text \<open>
  \<open>find_first\<close> finds an occurrence when there is one, and what it returns is a split of
  the string around the pattern. So \<open>includes_str\<close> is the substring relation, and a
  replacement changes the length by the difference of the two texts.
\<close>

lemma find_first_Some: "find_first pat s = Some (a, b) \<Longrightarrow> s = a @ pat @ b"
proof (induction s arbitrary: a b)
  case Nil
  then show ?case by (simp split: if_splits)
next
  case (Cons c cs)
  show ?case
  proof (cases "prefix pat (c # cs)")
    case True
    then have "c # cs = pat @ drop (length pat) (c # cs)"
      by (metis append_eq_conv_conj prefixE)
    moreover from True Cons.prems have "a = []" "b = drop (length pat) (c # cs)"
      by simp_all
    ultimately show ?thesis by simp
  next
    case False
    with Cons.prems obtain a' where "find_first pat cs = Some (a', b)" and "a = c # a'"
      by (auto split: prod.splits)
    with Cons.IH show ?thesis by simp
  qed
qed

lemma find_first_append: "find_first pat (a @ pat @ b) \<noteq> None"
proof (induction a)
  case Nil
  show ?case
  proof (cases "pat @ b")
    case Nil
    then show ?thesis by simp
  next
    case (Cons x xs)
    then have "prefix pat (x # xs)" by (metis prefixI)
    with Cons show ?thesis by simp
  qed
next
  case (Cons c a)
  then show ?case by auto
qed

lemma includes_str_iff: "includes_str s pat \<longleftrightarrow> (\<exists>a b. s = a @ pat @ b)"
proof
  assume "includes_str s pat"
  then obtain a b where "find_first pat s = Some (a, b)"
    by (auto simp: includes_str_def)
  then show "\<exists>a b. s = a @ pat @ b" by (blast dest: find_first_Some)
next
  assume "\<exists>a b. s = a @ pat @ b"
  then obtain a b where "s = a @ pat @ b" by blast
  then show "includes_str s pat"
    using find_first_append [of pat a b] by (simp add: includes_str_def)
qed

text \<open>The dot pattern: some character that is not a line break, then the literal.\<close>

lemma dot_then_append: "dot_matches c \<Longrightarrow> dot_then lit (a @ c # lit @ b)"
  by (induction a) auto

lemma dot_then_iff: "dot_then lit s \<longleftrightarrow> (\<exists>a c b. s = a @ c # lit @ b \<and> dot_matches c)"
proof
  show "dot_then lit s \<Longrightarrow> \<exists>a c b. s = a @ c # lit @ b \<and> dot_matches c"
  proof (induction s)
    case Nil
    then show ?case by simp
  next
    case (Cons d ds)
    show ?case
    proof (cases "dot_matches d \<and> prefix lit ds")
      case True
      then obtain r where "ds = lit @ r" by (auto simp: prefix_def)
      with True have "d # ds = [] @ d # lit @ r \<and> dot_matches d" by simp
      then show ?thesis by blast
    next
      case False
      with Cons.prems have "dot_then lit ds" by auto
      with Cons.IH obtain a c b where "ds = a @ c # lit @ b" "dot_matches c" by blast
      then have "d # ds = (d # a) @ c # lit @ b \<and> dot_matches c" by simp
      then show ?thesis by blast
    qed
  qed
next
  show "\<exists>a c b. s = a @ c # lit @ b \<and> dot_matches c \<Longrightarrow> dot_then lit s"
    by (auto simp: dot_then_append)
qed

text \<open>
  The throwing map returns a list exactly when the callback returns on every element, and
  then element by element; it throws as soon as the callback throws on one.
\<close>

lemma map_throwing_Inr_D: "map_throwing f xs = Inr ys \<Longrightarrow> list_all2 (\<lambda>x y. f x = Inr y) xs ys"
  by (induction xs arbitrary: ys) (auto split: sum.splits)

lemma map_throwing_Inr_I: "list_all2 (\<lambda>x y. f x = Inr y) xs ys \<Longrightarrow> map_throwing f xs = Inr ys"
  by (induction rule: list_all2_induct) simp_all

lemma map_throwing_Inr: "map_throwing f xs = Inr ys \<longleftrightarrow> list_all2 (\<lambda>x y. f x = Inr y) xs ys"
  by (blast intro: map_throwing_Inr_D map_throwing_Inr_I)

lemma map_throwing_Inl: "map_throwing f xs = Inl e \<Longrightarrow> \<exists>x\<in>set xs. f x = Inl e"
  by (induction xs) (auto split: sum.splits)

lemma map_throwing_fails: "x \<in> set xs \<Longrightarrow> f x = Inl e \<Longrightarrow> \<exists>e'. map_throwing f xs = Inl e'"
  by (induction xs) (auto split: sum.splits)

lemma replace_length:
  assumes "s = a @ pat @ b"
  shows "length (replace s pat rep) + length pat = length s + length rep"
proof -
  from assms have "find_first pat s \<noteq> None" by (simp add: find_first_append)
  then obtain a' b' where f: "find_first pat s = Some (a', b')" by auto
  then have "s = a' @ pat @ b'" by (rule find_first_Some)
  with f show ?thesis by (simp add: replace_def)
qed

text \<open>
  The host of a route (line 88). A pattern that ends in two slashes cannot start inside a
  host that holds no slash, unless the host ends in the scheme name and its colon; so both
  replacements leave the host of \<open>http://host\<close> and \<open>https://host\<close>, followed by nothing
  or by a path, in front of the first slash.
\<close>

lemma find_first_prefix: "pat \<noteq> [] \<Longrightarrow> find_first pat (pat @ r) = Some ([], r)"
  by (cases pat) simp_all

lemma find_first_absent:
  assumes "c \<in> set pat" and "c \<notin> set s"
  shows "find_first pat s = None"
proof (cases "find_first pat s")
  case None
  then show ?thesis .
next
  case (Some ab)
  then obtain a b where "find_first pat s = Some (a, b)" by (cases ab) simp
  then have "s = a @ pat @ b" by (rule find_first_Some)
  with assms show ?thesis by simp
qed

lemma takeWhile_until: "c \<notin> set h \<Longrightarrow> takeWhile (\<lambda>x. x \<noteq> c) (h @ c # r) = h"
  by (induction h) auto

lemma replace_Cons:
  assumes "\<not> prefix pat (x # s)"
  shows "replace (x # s) pat rep = x # replace s pat rep"
  using assms by (cases "find_first pat s") (auto simp: replace_def)

lemma not_prefix_in_host:
  assumes "CHR ''/'' \<notin> set h" and "CHR ''/'' \<notin> set p" and "\<not> suffix p h"
  shows "\<not> prefix (p @ ''//'') (h @ CHR ''/'' # r)"
proof
  assume "prefix (p @ ''//'') (h @ CHR ''/'' # r)"
  then obtain zs where eq: "h @ CHR ''/'' # r = (p @ ''//'') @ zs" by (auto simp: prefix_def)
  have "takeWhile (\<lambda>c. c \<noteq> CHR ''/'') (h @ CHR ''/'' # r) = h"
    using assms(1) by (rule takeWhile_until)
  moreover have "takeWhile (\<lambda>c. c \<noteq> CHR ''/'') (p @ CHR ''/'' # CHR ''/'' # zs) = p"
    using assms(2) by (rule takeWhile_until)
  ultimately have "h = p" using eq by simp
  with assms(3) show False by simp
qed

lemma find_first_past_host:
  assumes "CHR ''/'' \<notin> set h" and "CHR ''/'' \<notin> set p" and "\<not> suffix p h"
  shows "find_first (p @ ''//'') (h @ CHR ''/'' # r) =
           map_option (\<lambda>(a, b). (h @ CHR ''/'' # a, b)) (find_first (p @ ''//'') r)"
  using assms
proof (induction h)
  case Nil
  then have "p \<noteq> []" by auto
  with Nil have "\<not> prefix (p @ ''//'') (CHR ''/'' # r)"
    by (cases p) auto
  then show ?case by (cases "find_first (p @ ''//'') r") auto
next
  case (Cons c h)
  from Cons.prems have np: "\<not> prefix (p @ ''//'') ((c # h) @ CHR ''/'' # r)"
    by (intro not_prefix_in_host) simp_all
  from Cons.prems have "\<not> suffix p h" by (auto simp: suffix_Cons)
  with Cons have "find_first (p @ ''//'') (h @ CHR ''/'' # r) =
           map_option (\<lambda>(a, b). (h @ CHR ''/'' # a, b)) (find_first (p @ ''//'') r)"
    by simp
  with np show ?case by (cases "find_first (p @ ''//'') r") auto
qed

lemma replace_keeps_host:
  assumes "CHR ''/'' \<notin> set h" and "CHR ''/'' \<notin> set p" and "\<not> suffix p h"
    and "rest = [] \<or> hd rest = CHR ''/''"
  shows "\<exists>rest'. replace (h @ rest) (p @ ''//'') [] = h @ rest' \<and>
                 (rest' = [] \<or> hd rest' = CHR ''/'')"
proof (cases rest)
  case Nil
  have "find_first (p @ ''//'') h = None"
    using assms(1) by (intro find_first_absent [of "CHR ''/''"]) simp_all
  with Nil show ?thesis by (simp add: replace_def)
next
  case (Cons x r)
  with assms(4) have x: "x = CHR ''/''" by simp
  note ff = find_first_past_host [OF assms(1,2,3), of r]
  show ?thesis
  proof (cases "find_first (p @ ''//'') r")
    case None
    with ff Cons x show ?thesis by (simp add: replace_def)
  next
    case (Some ab)
    then obtain a b where "find_first (p @ ''//'') r = Some (a, b)" by (cases ab) simp
    with ff Cons x have "replace (h @ rest) (p @ ''//'') [] = h @ (CHR ''/'' # a @ b)"
      by (simp add: replace_def)
    then show ?thesis by auto
  qed
qed

lemma split_first_host:
  assumes "CHR ''/'' \<notin> set h" and "rest = [] \<or> hd rest = CHR ''/''"
  shows "split_first (CHR ''/'') (h @ rest) = h"
  using assms by (cases rest) (auto simp: split_first_def takeWhile_until)

lemma hostOfRoute_origin:
  assumes "sch = ''http://'' \<or> sch = ''https://''"
    and "CHR ''/'' \<notin> set h" and "\<not> suffix ''http:'' h" and "\<not> suffix ''https:'' h"
    and "rest = [] \<or> hd rest = CHR ''/''"
  shows "hostOfRoute (sch @ h @ rest) = h"
proof -
  from assms(1) show ?thesis
  proof
    assume sch: "sch = ''http://''"
    have "replace (h @ rest) (''https:'' @ ''//'') [] = replace (h @ rest) ''https://'' []"
      by simp
    with replace_keeps_host [OF assms(2) _ assms(4,5), of] obtain rest'
      where r: "replace (h @ rest) ''https://'' [] = h @ rest'" "rest' = [] \<or> hd rest' = CHR ''/''"
      by auto
    have "replace (''http://'' @ h @ rest) ''https://'' [] = ''http://'' @ replace (h @ rest) ''https://'' []"
      by (simp add: replace_Cons)
    with r have "replace (replace (''http://'' @ h @ rest) ''https://'' []) ''http://'' [] = h @ rest'"
      using find_first_prefix [of "''http://''" "h @ rest'"] by (simp add: replace_def)
    with sch r(2) assms(2) show ?thesis
      by (simp add: hostOfRoute_def split_first_host)
  next
    assume sch: "sch = ''https://''"
    have "replace (''https://'' @ h @ rest) ''https://'' [] = h @ rest"
      using find_first_prefix [of "''https://''" "h @ rest"] by (simp add: replace_def)
    moreover have "replace (h @ rest) (''http:'' @ ''//'') [] = replace (h @ rest) ''http://'' []"
      by simp
    with replace_keeps_host [OF assms(2) _ assms(3,5), of] obtain rest'
      where "replace (h @ rest) ''http://'' [] = h @ rest'" "rest' = [] \<or> hd rest' = CHR ''/''"
      by auto
    ultimately show ?thesis
      using sch assms(2) by (simp add: hostOfRoute_def split_first_host)
  qed
qed

subsection \<open>The filter and the records\<close>

text \<open>
  The only exception of the \<open>map\<close> callback is the \<open>SyntaxError\<close> of \<open>JSON.parse\<close>, and
  \<open>readHarFile\<close> resolves exactly when the file is a HAR document and no callback throws.
\<close>

lemma toRecord_error: "toRecord e = Inl err \<Longrightarrow> err = SyntaxError"
  by (auto simp: toRecord_def split: option.splits)

lemma toRecord_request: "toRecord e = Inr r \<Longrightarrow> request r = entry_request e"
  by (auto simp: toRecord_def split: option.splits)

lemma readHarFile_Resolved:
  "fs_readFile C path (fst s) = Data (HarDoc har) \<Longrightarrow>
   fst (readHarFile C path host s) = Resolved requests \<longleftrightarrow>
   xgrRequests host (entries (log har)) = Inr requests"
  by (auto simp: readHarFile_def split: sum.splits)

lemma xgrRequests_requests:
  assumes "xgrRequests host es = Inr requests"
  shows "map request requests = map entry_request (filter (keeps host) es)"
proof -
  have "list_all2 (\<lambda>e r. toRecord e = Inr r) (filter (keeps host) es) requests"
    using assms by (simp add: xgrRequests_def map_throwing_Inr)
  then have "list_all2 (\<lambda>e r. entry_request e = request r) (filter (keeps host) es) requests"
    by (rule list_all2_mono) (simp add: toRecord_request)
  then show ?thesis
    by (induction rule: list_all2_induct) auto
qed

lemma steady_read: "fs_readFile (steady r) path w = r"
  by (simp add: steady_def)

lemma xgrRequests_records:
  "xgrRequests host es = Inr requests \<longleftrightarrow>
   list_all2 (\<lambda>e r. toRecord e = Inr r) (filter (keeps host) es) requests"
  by (simp add: xgrRequests_def map_throwing_Inr)

lemma xgrRequests_throws:
  assumes "e \<in> set es" and "keeps host e" and "toRecord e = Inl err"
  shows "xgrRequests host es = Inl SyntaxError"
proof -
  from assms have "e \<in> set (filter (keeps host) es)" by simp
  with assms(3) obtain err' where err': "map_throwing toRecord (filter (keeps host) es) = Inl err'"
    by (blast dest: map_throwing_fails)
  then obtain x where "toRecord x = Inl err'" by (blast dest: map_throwing_Inl)
  then have "err' = SyntaxError" by (rule toRecord_error)
  with err' show ?thesis by (simp add: xgrRequests_def)
qed

text \<open>The two tests of the filter, on a URL and a content type split around a match.\<close>

lemma test_asset_url_I:
  assumes "u = pre @ c # ext @ post" and "dot_matches c" and "ext \<in> set asset_extensions"
  shows "test_asset_url u"
proof -
  from assms(1,2) have "dot_then ext u" unfolding dot_then_iff by blast
  with assms(3) show ?thesis by (auto simp: test_asset_url_def list_ex_iff)
qed

lemma test_asset_mime_I:
  assumes "mime = pre @ w @ post" and "w \<in> set asset_mime_words"
  shows "test_asset_mime mime"
proof -
  from assms(1) have "includes_str mime w" unfolding includes_str_iff by blast
  with assms(2) show ?thesis by (auto simp: test_asset_mime_def list_ex_iff)
qed

text \<open>The text \<open>{}\<close> is the empty object.\<close>

lemma JSON_parse_empty_object: "JSON_parse ''{}'' = Some (JObject [])"
  by code_simp


text \<open>
  The two texts \<open>JSON.parse\<close> is given, spelled out on the fields of the entry; when the
  callback returns; and what the record it returns holds.
\<close>

lemma requestText_explicit:
  "requestText r =
     (case postData r of
        None \<Rightarrow> ''{}''
      | Some pd \<Rightarrow> (case postData_text pd of
                     None \<Rightarrow> ''{}''
                   | Some t \<Rightarrow> if t = [] then ''{}'' else t))"
  by (simp add: requestText_def postDataText_def truthy_def split: option.splits)

lemma responseString_explicit:
  "responseString r =
     (case content_text (content r) of
        None \<Rightarrow> ''{}''
      | Some t \<Rightarrow> if t = [] then ''{}'' else base64_toString t)"
  by (simp add: responseString_def truthy_def split: option.splits)

lemma toRecord_throws_explicit:
  assumes "postData (entry_request e) = Some pd" and "postData_text pd = Some t" and "t \<noteq> []"
    and "JSON_parse t = None"
  shows "toRecord e = Inl SyntaxError"
  using assms by (simp add: toRecord_def requestText_explicit)

lemma toRecord_returns:
  assumes "\<forall>pd t. postData (entry_request e) = Some pd \<and> postData_text pd = Some t \<and> t \<noteq> []
             \<longrightarrow> JSON_parse t \<noteq> None"
    and "\<forall>t. content_text (content (entry_response e)) = Some t \<and> t \<noteq> []
             \<longrightarrow> JSON_parse (base64_toString t) \<noteq> None"
  shows "\<exists>r. toRecord e = Inr r"
proof -
  have "JSON_parse (requestText (entry_request e)) \<noteq> None"
    using assms(1) by (auto simp: requestText_explicit JSON_parse_empty_object split: option.splits)
  moreover have "JSON_parse (responseString (entry_response e)) \<noteq> None"
    using assms(2) by (auto simp: responseString_explicit JSON_parse_empty_object split: option.splits)
  ultimately show ?thesis by (auto simp: toRecord_def)
qed

lemma toRecord_explicit:
  assumes "toRecord e = Inr r"
  shows "url r = endpointOfUrl (request_url (entry_request e)) \<and>
         request r = entry_request e \<and>
         (postData (entry_request e) = None \<or>
          (\<exists>pd. postData (entry_request e) = Some pd \<and>
                (postData_text pd = None \<or> postData_text pd = Some []))
            \<longrightarrow> requestData r = JObject []) \<and>
         (\<forall>pd t. postData (entry_request e) = Some pd \<and> postData_text pd = Some t \<and> t \<noteq> []
            \<longrightarrow> JSON_parse t = Some (requestData r)) \<and>
         (content_text (content (entry_response e)) = None \<or>
          content_text (content (entry_response e)) = Some []
            \<longrightarrow> response r = JObject []) \<and>
         (\<forall>t. content_text (content (entry_response e)) = Some t \<and> t \<noteq> []
            \<longrightarrow> JSON_parse (base64_toString t) = Some (response r))"
  using assms
  by (auto simp: toRecord_def requestText_explicit responseString_explicit JSON_parse_empty_object
           split: option.splits)

lemma map_throwing_returns:
  "\<forall>x\<in>set xs. \<exists>y. f x = Inr y \<Longrightarrow> \<exists>ys. map_throwing f xs = Inr ys"
  by (induction xs) auto

lemma readHarFile_resolves:
  assumes "fs_readFile C path (fst s) = Data (HarDoc har)"
    and "\<forall>k\<in>set (entries (log har)). keeps host k \<longrightarrow> (\<exists>r. toRecord k = Inr r)"
  shows "\<exists>requests. fst (readHarFile C path host s) = Resolved requests"
proof -
  from assms(2) have "\<forall>k\<in>set (filter (keeps host) (entries (log har))). \<exists>r. toRecord k = Inr r"
    by simp
  then obtain requests where "xgrRequests host (entries (log har)) = Inr requests"
    unfolding xgrRequests_def by (blast dest: map_throwing_returns)
  with assms(1) show ?thesis by (simp add: readHarFile_Resolved)
qed

lemma readHarFile_throws:
  assumes "fs_readFile C path (fst s) = Data (HarDoc har)"
    and "xgrRequests host (entries (log har)) = Inl err"
  shows "\<not> fulfilled (fst (readHarFile C path host s))"
  using assms by (simp add: readHarFile_def fulfilled_def)

text \<open>No record of a mock set has a request URL that includes the host.\<close>

lemma readHarFile_Resolved_D:
  assumes "fst (readHarFile C path host s) = Resolved requests"
  shows "\<exists>har. fs_readFile C path (fst s) = Data (HarDoc har) \<and>
               xgrRequests host (entries (log har)) = Inr requests"
  using assms
  by (auto simp: readHarFile_def split: read_result.splits document.splits sum.splits)

lemma xgrRequests_without_host:
  assumes "xgrRequests host es = Inr requests" and "r \<in> set requests"
  shows "\<not> includes_str (request_url (request r)) host"
proof -
  from assms(2) have "request r \<in> set (map request requests)" by simp
  also have "map request requests = map entry_request (filter (keeps host) es)"
    using assms(1) by (rule xgrRequests_requests)
  finally obtain k where "keeps host k" and "entry_request k = request r" by auto
  then show ?thesis by (simp add: keeps_def Let_def)
qed

subsection \<open>The calls of a run\<close>

text \<open>
  Every call is appended to the list of calls. The session makes browser calls only, all with
  the HAR path; the \<open>try\<close> block launches nothing and writes nothing but the list
  \<open>readHarFile\<close> resolved to, at \<open>filePath\<close>.
\<close>

lemma perform_eq:
  "perform ev f s = (r, s') \<longleftrightarrow> (\<exists>w'. f (fst s) = (r, w') \<and> s' = (w', snd s @ [ev]))"
  by (auto simp: perform_def split: prod.splits)

lemma session_trace:
  assumes "session C route hp lr s = (r, s')"
  shows "\<exists>evs. snd s' = snd s @ evs \<and>
           set evs \<subseteq> {LaunchPersistentContext hp, NewPage, Goto route, SetHttpLogs,
                        ConsoleLog ''Recording requests'', Pause, Close}"
  using assms unfolding session_def perform_def note_event_def
  by (auto split: prod.splits option.splits if_splits)

lemma catch_block_trace:
  assumes "catch_block C hp e requests s = (r, s')"
  shows "snd s' = snd s @ [ConsoleError e, RemoveFile hp]"
  using assms unfolding catch_block_def perform_def note_event_def
  by (auto split: prod.splits option.splits)

lemma try_block_launch:
  assumes "try_block C route fp hp s = (r, s')"
    and "LaunchPersistentContext p \<in> set (snd s')"
  shows "LaunchPersistentContext p \<in> set (snd s)"
  using assms unfolding try_block_def readHarFile_def catch_block_def perform_def note_event_def
  by (auto split: prod.splits option.splits promise.splits)

lemma try_block_write:
  assumes "try_block C route fp hp s = (r, s')"
    and "WriteFile p xs \<in> set (snd s')"
  shows "WriteFile p xs \<in> set (snd s) \<or>
         (p = fp \<and> (\<exists>w' har. fs_readFile C hp w' = Data (HarDoc har) \<and>
                      xgrRequests (hostOfRoute route) (entries (log har)) = Inr xs))"
  using assms unfolding try_block_def readHarFile_def catch_block_def perform_def note_event_def
  by (auto split: prod.splits option.splits promise.splits read_result.splits document.splits sum.splits) blast+

text \<open>
  Whenever the \<open>try\<close> block ends with a settled promise, \<open>removeFile\<close> was called on the
  HAR path; and the only path it waits for is \<open>filePath\<close>.
\<close>

lemma try_block_removes:
  assumes "try_block C route fp hp s = (r, s')" and "\<And>e. r \<noteq> Uncaught e"
  shows "RemoveFile hp \<in> set (snd s')"
  using assms unfolding try_block_def readHarFile_def catch_block_def perform_def note_event_def
  by (auto split: prod.splits option.splits promise.splits read_result.splits document.splits
                  sum.splits)

lemma try_block_waits:
  assumes "try_block C route fp hp s = (r, s')"
    and "WaitForFileExists p \<in> set (snd s')"
  shows "WaitForFileExists p \<in> set (snd s) \<or> p = fp"
  using assms unfolding try_block_def readHarFile_def catch_block_def perform_def note_event_def
  by (auto split: prod.splits option.splits promise.splits)

text \<open>
  What \<open>recordHar\<close> writes, launches and returns: whatever the world, the list written
  and the list returned come from \<open>xgrRequests\<close> on the host of the route.
\<close>

lemma recordHar_write:
  assumes "WriteFile p xs \<in> set (snd (snd (recordHar C route (Some fp) lr (w, []))))"
  shows "p = fp \<and> (\<exists>w' har. fs_readFile C (harPathOf fp) w' = Data (HarDoc har) \<and>
                     xgrRequests (hostOfRoute route) (entries (log har)) = Inr xs)"
proof -
  obtain r s1 where Pair: "session C route (harPathOf fp) lr (w, []) = (r, s1)"
    by (cases "session C route (harPathOf fp) lr (w, [])") auto
  from session_trace [OF Pair] have no_write: "WriteFile p xs \<notin> set (snd s1)"
    by auto
  show ?thesis
  proof (cases r)
    case None
    obtain q s2 where t: "try_block C route fp (harPathOf fp) s1 = (q, s2)"
      by (cases "try_block C route fp (harPathOf fp) s1") auto
    with Pair None assms have "WriteFile p xs \<in> set (snd s2)"
      by (simp add: recordHar_def)
    with try_block_write [OF t] no_write show ?thesis by blast
  next
    case (Some e)
    with Pair assms no_write show ?thesis by (simp add: recordHar_def)
  qed
qed

lemma recordHar_launch:
  assumes "LaunchPersistentContext p \<in> set (snd (snd (recordHar C route (Some fp) lr (w, []))))"
  shows "p = harPathOf fp"
proof -
  obtain r s1 where Pair: "session C route (harPathOf fp) lr (w, []) = (r, s1)"
    by (cases "session C route (harPathOf fp) lr (w, [])") auto
  from session_trace [OF Pair] have only: "LaunchPersistentContext p \<in> set (snd s1) \<Longrightarrow> p = harPathOf fp"
    by auto
  show ?thesis
  proof (cases r)
    case None
    obtain q s2 where t: "try_block C route fp (harPathOf fp) s1 = (q, s2)"
      by (cases "try_block C route fp (harPathOf fp) s1") auto
    with Pair None assms have "LaunchPersistentContext p \<in> set (snd s2)"
      by (simp add: recordHar_def)
    with try_block_launch [OF t] only show ?thesis by blast
  next
    case (Some e)
    with Pair assms only show ?thesis by (simp add: recordHar_def)
  qed
qed

lemma try_block_resolved:
  assumes "try_block C route fp hp s = (Resolved xs, s')"
  shows "xs = [] \<or> (\<exists>w' har. fs_readFile C hp w' = Data (HarDoc har) \<and>
                       xgrRequests (hostOfRoute route) (entries (log har)) = Inr xs)"
  using assms unfolding try_block_def readHarFile_def catch_block_def perform_def note_event_def
  by (auto split: prod.splits option.splits promise.splits read_result.splits document.splits
                  sum.splits)

lemma recordHar_resolved:
  assumes "fst (recordHar C route (Some fp) lr s) = Resolved xs"
  shows "xs = [] \<or> (\<exists>w' har. fs_readFile C (harPathOf fp) w' = Data (HarDoc har) \<and>
                       xgrRequests (hostOfRoute route) (entries (log har)) = Inr xs)"
proof -
  obtain r s1 where sess: "session C route (harPathOf fp) lr s = (r, s1)"
    by (cases "session C route (harPathOf fp) lr s") auto
  show ?thesis
  proof (cases r)
    case None
    obtain q s2 where t: "try_block C route fp (harPathOf fp) s1 = (q, s2)"
      by (cases "try_block C route fp (harPathOf fp) s1") auto
    with sess None assms have "q = Resolved xs" by (simp add: recordHar_def)
    with t show ?thesis by (blast dest: try_block_resolved)
  next
    case (Some e)
    with sess assms show ?thesis by (simp add: recordHar_def)
  qed
qed

subsection \<open>The claims\<close>

text \<open>
  C1, as amended. Let the route be \<open>http://\<close> or \<open>https://\<close>, a host, and then nothing or a
  path that starts with a slash (the host holding no slash and not ending in \<open>http:\<close> or
  \<open>https:\<close>). Then line 88 derives that host, and every entry whose request URL is a scheme,
  \<open>://\<close>, that host and a rest is excluded: it does not pass the filter, its request is in
  no record \<open>readHarFile\<close> resolves to, in none \<open>recordHar\<close> returns and in none it writes.
\<close>

theorem same_origin_excluded:
  assumes scheme: "sch = ''http://'' \<or> sch = ''https://''"
    and host: "CHR ''/'' \<notin> set h" "\<not> suffix ''http:'' h" "\<not> suffix ''https:'' h"
    and rest: "rest = [] \<or> hd rest = CHR ''/''"
    and entry_url: "request_url (entry_request e) = scheme @ ''://'' @ h @ rest'"
  shows "hostOfRoute (sch @ h @ rest) = h \<and>
         \<not> keeps (hostOfRoute (sch @ h @ rest)) e \<and>
         (fst (readHarFile C path (hostOfRoute (sch @ h @ rest)) s) = Resolved requests
            \<longrightarrow> entry_request e \<notin> request ` set requests) \<and>
         (fst (recordHar C (sch @ h @ rest) (Some filePath) logRecording s') = Resolved returned
            \<longrightarrow> entry_request e \<notin> request ` set returned) \<and>
         (WriteFile p written
            \<in> set (snd (snd (recordHar C (sch @ h @ rest) (Some filePath) logRecording (w, []))))
            \<longrightarrow> entry_request e \<notin> request ` set written)"
proof -
  have hr: "hostOfRoute (sch @ h @ rest) = h"
    using scheme host rest by (rule hostOfRoute_origin)
  have "request_url (entry_request e) = (scheme @ ''://'') @ h @ rest'"
    using entry_url by simp
  then have incl: "includes_str (request_url (entry_request e)) h"
    unfolding includes_str_iff by blast
  then have nk: "\<not> keeps h e" by (simp add: keeps_def)
  have absent: "entry_request e \<notin> request ` set xs" if "xgrRequests h es = Inr xs" for es xs
  proof
    assume "entry_request e \<in> request ` set xs"
    then obtain r where "r \<in> set xs" and "request r = entry_request e" by auto
    with that incl show False by (auto dest: xgrRequests_without_host)
  qed
  have a: "entry_request e \<notin> request ` set requests"
    if "fst (readHarFile C path h s) = Resolved requests"
    using that by (blast dest: readHarFile_Resolved_D absent)
  have b: "entry_request e \<notin> request ` set returned"
    if "fst (recordHar C (sch @ h @ rest) (Some filePath) logRecording s') = Resolved returned"
  proof -
    from recordHar_resolved [OF that] hr
    have "returned = [] \<or> (\<exists>es. xgrRequests h es = Inr returned)" by auto
    then show ?thesis by (auto dest: absent)
  qed
  have c: "entry_request e \<notin> request ` set written"
    if "WriteFile p written
          \<in> set (snd (snd (recordHar C (sch @ h @ rest) (Some filePath) logRecording (w, []))))"
  proof -
    from recordHar_write [OF that] hr
    have "\<exists>es. xgrRequests h es = Inr written" by auto
    then show ?thesis by (auto dest: absent)
  qed
  from hr nk a b c show ?thesis by simp
qed

theorem same_origin_excluded_witness:
  "CHR ''/'' \<notin> set ''localhost:3000'' \<and>
   \<not> suffix ''http:'' ''localhost:3000'' \<and> \<not> suffix ''https:'' ''localhost:3000'' \<and>
   request_url (entry_request page_entry) = ''http'' @ ''://'' @ ''localhost:3000'' @ ''/index.html'' \<and>
   hostOfRoute (''http://'' @ ''localhost:3000'' @ ''/page'') = ''localhost:3000'' \<and>
   \<not> keeps (hostOfRoute (''http://'' @ ''localhost:3000'' @ ''/page'')) page_entry \<and>
   fst (recordHar (steady (Data (HarDoc demo_har))) (''http://'' @ ''localhost:3000'' @ ''/page'')
          (Some ''a.mocks.json'') False ((), []))
     = Resolved [api_record, post_record] \<and>
   entry_request page_entry \<notin> request ` set [api_record, post_record] \<and>
   WriteFile ''a.mocks.json'' [api_record, post_record]
     \<in> set (snd (snd (recordHar (steady (Data (HarDoc demo_har)))
                         (''http://'' @ ''localhost:3000'' @ ''/page'')
                         (Some ''a.mocks.json'') False ((), []))))"
proof -
  have h1: "''http://'' = ''http://'' \<or> ''http://'' = ''https://''" by simp
  have h2: "CHR ''/'' \<notin> set ''localhost:3000''" by simp
  have h3: "\<not> suffix ''http:'' ''localhost:3000''" by (simp add: suffix_to_prefix)
  have h4: "\<not> suffix ''https:'' ''localhost:3000''" by (simp add: suffix_to_prefix)
  have h5: "''/page'' = [] \<or> hd ''/page'' = CHR ''/''" by simp
  have h6: "request_url (entry_request page_entry) = ''http'' @ ''://'' @ ''localhost:3000'' @ ''/index.html''"
    by (simp add: page_entry_def)
  have r1: "fst (recordHar (steady (Data (HarDoc demo_har))) (''http://'' @ ''localhost:3000'' @ ''/page'')
          (Some ''a.mocks.json'') False ((), []))
     = Resolved [api_record, post_record]"
    by code_simp
  have r2: "WriteFile ''a.mocks.json'' [api_record, post_record]
     \<in> set (snd (snd (recordHar (steady (Data (HarDoc demo_har)))
                         (''http://'' @ ''localhost:3000'' @ ''/page'')
                         (Some ''a.mocks.json'') False ((), []))))"
    by code_simp
  note t = same_origin_excluded [OF h1 h2 h3 h4 h5 h6,
             of "steady (Data (HarDoc demo_har))" _ _ _ "''a.mocks.json''" False "((), [])"
                "[api_record, post_record]"]
  from t have "hostOfRoute (''http://'' @ ''localhost:3000'' @ ''/page'') = ''localhost:3000''"
    by blast
  moreover from t have "\<not> keeps (hostOfRoute (''http://'' @ ''localhost:3000'' @ ''/page'')) page_entry"
    by blast
  moreover from t r1 have "entry_request page_entry \<notin> request ` set [api_record, post_record]"
    by blast
  ultimately show ?thesis using h2 h3 h4 h6 r1 r2 by blast
qed

text \<open>
  Against C1 as stated: a route whose host is followed by a query. Line 88 cuts at the first
  slash only, so the host it derives carries the query; no request URL includes that, and a
  call to the page's own host passes the filter and is returned as a record.
\<close>

theorem same_origin_kept_for_query_route:
  "hostOfRoute ''http://localhost:3000?tab=1'' = ''localhost:3000?tab=1'' \<and>
   request_url (entry_request me_entry) = ''http://localhost:3000/api/me'' \<and>
   fst (recordHar (steady (Data (HarDoc (har_of [me_entry])))) ''http://localhost:3000?tab=1''
          (Some ''a.mocks.json'') False ((), []))
     = Resolved [me_record] \<and>
   request me_record = entry_request me_entry"
proof -
  have "hostOfRoute ''http://localhost:3000?tab=1'' = ''localhost:3000?tab=1''" by code_simp
  moreover have "request_url (entry_request me_entry) = ''http://localhost:3000/api/me''"
    by (simp add: me_entry_def)
  moreover have "fst (recordHar (steady (Data (HarDoc (har_of [me_entry])))) ''http://localhost:3000?tab=1''
          (Some ''a.mocks.json'') False ((), [])) = Resolved [me_record]"
    by code_simp
  moreover have "request me_record = entry_request me_entry"
    by (simp add: me_record_def)
  ultimately show ?thesis by blast
qed

text \<open>
  C2, as amended. An entry is excluded when its request URL holds, after a character that is
  not a line break, one of the listed extensions, or when the content type of its response
  holds \<open>image\<close>, \<open>font\<close> or \<open>javascript\<close>: it does not pass the filter, and the mock set
  is, record for record, made of the entries that do.
\<close>

theorem asset_excluded:
  assumes entry: "e \<in> set (entries (log har))"
    and asset: "(request_url (entry_request e) = pre @ c # ext @ post \<and> dot_matches c \<and>
                   ext \<in> set asset_extensions) \<or>
                (mimeType (content (entry_response e)) = pre' @ w @ post' \<and> w \<in> set asset_mime_words)"
    and read: "fs_readFile C path (fst s) = Data (HarDoc har)"
    and resolved: "fst (readHarFile C path host s) = Resolved requests"
  shows "e \<notin> set (filter (keeps host) (entries (log har))) \<and>
         list_all2 (\<lambda>k r. toRecord k = Inr r) (filter (keeps host) (entries (log har))) requests"
proof -
  from asset have "test_asset_url (request_url (entry_request e)) \<or>
                   test_asset_mime (mimeType (content (entry_response e)))"
    by (blast intro: test_asset_url_I test_asset_mime_I)
  then have "\<not> keeps host e" by (auto simp: keeps_def)
  moreover have "list_all2 (\<lambda>k r. toRecord k = Inr r) (filter (keeps host) (entries (log har))) requests"
    using read resolved by (simp add: readHarFile_Resolved xgrRequests_records)
  ultimately show ?thesis by simp
qed

theorem asset_excluded_witness:
  "image_entry \<in> set (entries (log demo_har)) \<and>
   request_url (entry_request image_entry) = ''https://cdn.example.com/logo'' @ CHR ''.'' # ''png'' @ [] \<and>
   dot_matches (CHR ''.'') \<and> ''png'' \<in> set asset_extensions \<and>
   fst (readHarFile (steady (Data (HarDoc demo_har))) ''a.mocks.temp.har'' ''localhost:3000'' ((), []))
     = Resolved [api_record, post_record] \<and>
   image_entry \<notin> set (filter (keeps ''localhost:3000'') (entries (log demo_har))) \<and>
   list_all2 (\<lambda>k r. toRecord k = Inr r) (filter (keeps ''localhost:3000'') (entries (log demo_har)))
     [api_record, post_record]"
proof -
  have h1: "image_entry \<in> set (entries (log demo_har))"
    by (simp add: demo_har_def har_of_def)
  have h2: "request_url (entry_request image_entry) = ''https://cdn.example.com/logo'' @ CHR ''.'' # ''png'' @ []"
    by (simp add: image_entry_def)
  have h3: "dot_matches (CHR ''.'')" by (simp add: dot_matches_def)
  have h4: "''png'' \<in> set asset_extensions" by (simp add: asset_extensions_def)
  have h5: "fs_readFile (steady (Data (HarDoc demo_har))) ''a.mocks.temp.har'' (fst ((), []))
              = Data (HarDoc demo_har)"
    by (rule steady_read)
  have h6: "fst (readHarFile (steady (Data (HarDoc demo_har))) ''a.mocks.temp.har'' ''localhost:3000'' ((), []))
              = Resolved [api_record, post_record]"
    by code_simp
  from h2 h3 h4 have h7:
    "(request_url (entry_request image_entry) = ''https://cdn.example.com/logo'' @ CHR ''.'' # ''png'' @ [] \<and>
      dot_matches (CHR ''.'') \<and> ''png'' \<in> set asset_extensions) \<or>
     (mimeType (content (entry_response image_entry)) = [] @ ''image'' @ ''/png'' \<and>
      ''image'' \<in> set asset_mime_words)"
    by blast
  from asset_excluded [OF h1 h7 h5 h6] h1 h2 h3 h4 h6 show ?thesis by blast
qed

text \<open>
  Against C2 as stated: a stylesheet served from a URL without \<open>css\<close> in it. Its content
  type \<open>text/css\<close> holds none of the three words, so the entry passes the filter and its
  record is in the mock set.
\<close>

theorem stylesheet_content_type_kept:
  "mimeType (content (entry_response stylesheet_entry)) = ''text/css'' \<and>
   keeps ''localhost:3000'' stylesheet_entry \<and>
   fst (readHarFile (steady (Data (HarDoc (har_of [image_entry, stylesheet_entry]))))
          ''a.mocks.temp.har'' ''localhost:3000'' ((), []))
     = Resolved [stylesheet_record] \<and>
   request stylesheet_record = entry_request stylesheet_entry"
proof -
  have "mimeType (content (entry_response stylesheet_entry)) = ''text/css''"
    by (simp add: stylesheet_entry_def)
  moreover have "keeps ''localhost:3000'' stylesheet_entry"
    by code_simp
  moreover have "fst (readHarFile (steady (Data (HarDoc (har_of [image_entry, stylesheet_entry]))))
          ''a.mocks.temp.har'' ''localhost:3000'' ((), [])) = Resolved [stylesheet_record]"
    by code_simp
  moreover have "request stylesheet_record = entry_request stylesheet_entry"
    by (simp add: stylesheet_record_def)
  ultimately show ?thesis by blast
qed

text \<open>
  C3, as amended. When an entry that passes the filter has a request body text that is
  present, not empty and not JSON, \<open>JSON.parse\<close> throws its \<open>SyntaxError\<close> out of the map:
  \<open>readHarFile\<close> is not fulfilled, so there is no record for that entry and none for the
  others. When every text \<open>JSON.parse\<close> is given for an entry that passes the filter is JSON
  (the request body texts and the decoded response texts that are present and not empty),
  \<open>readHarFile\<close> is fulfilled with one record for each of these entries, and an entry whose
  request body text is absent or empty has the empty object as its \<open>requestData\<close>.
\<close>

theorem unparsable_body_aborts:
  assumes read: "fs_readFile C path (fst s) = Data (HarDoc har)"
  shows "(e \<in> set (entries (log har)) \<and> keeps host e \<and>
          postData (entry_request e) = Some pd \<and> postData_text pd = Some t \<and> t \<noteq> [] \<and>
          JSON_parse t = None
            \<longrightarrow> xgrRequests host (entries (log har)) = Inl SyntaxError \<and>
                \<not> fulfilled (fst (readHarFile C path host s))) \<and>
         ((\<forall>k\<in>set (entries (log har)). keeps host k \<longrightarrow>
             (\<forall>pd t. postData (entry_request k) = Some pd \<and> postData_text pd = Some t \<and> t \<noteq> []
                \<longrightarrow> JSON_parse t \<noteq> None) \<and>
             (\<forall>t. content_text (content (entry_response k)) = Some t \<and> t \<noteq> []
                \<longrightarrow> JSON_parse (base64_toString t) \<noteq> None))
            \<longrightarrow> (\<exists>requests.
                   fst (readHarFile C path host s) = Resolved requests \<and>
                   list_all2
                     (\<lambda>k r. request r = entry_request k \<and>
                             (postData (entry_request k) = None \<or>
                              (\<exists>pd. postData (entry_request k) = Some pd \<and>
                                    (postData_text pd = None \<or> postData_text pd = Some []))
                                \<longrightarrow> requestData r = JObject []))
                     (filter (keeps host) (entries (log har))) requests))"
proof (intro conjI impI)
  assume bad: "e \<in> set (entries (log har)) \<and> keeps host e \<and>
          postData (entry_request e) = Some pd \<and> postData_text pd = Some t \<and> t \<noteq> [] \<and>
          JSON_parse t = None"
  then have "toRecord e = Inl SyntaxError" by (blast intro: toRecord_throws_explicit)
  with bad show thrown: "xgrRequests host (entries (log har)) = Inl SyntaxError"
    by (blast intro: xgrRequests_throws)
  with read show "\<not> fulfilled (fst (readHarFile C path host s))"
    by (rule readHarFile_throws)
next
  assume good: "\<forall>k\<in>set (entries (log har)). keeps host k \<longrightarrow>
             (\<forall>pd t. postData (entry_request k) = Some pd \<and> postData_text pd = Some t \<and> t \<noteq> []
                \<longrightarrow> JSON_parse t \<noteq> None) \<and>
             (\<forall>t. content_text (content (entry_response k)) = Some t \<and> t \<noteq> []
                \<longrightarrow> JSON_parse (base64_toString t) \<noteq> None)"
  then have "\<forall>k\<in>set (entries (log har)). keeps host k \<longrightarrow> (\<exists>r. toRecord k = Inr r)"
    by (blast intro: toRecord_returns)
  with read obtain requests where res: "fst (readHarFile C path host s) = Resolved requests"
    by (blast dest: readHarFile_resolves)
  with read have "list_all2 (\<lambda>k r. toRecord k = Inr r) (filter (keeps host) (entries (log har))) requests"
    by (simp add: readHarFile_Resolved xgrRequests_records)
  then have "list_all2
                     (\<lambda>k r. request r = entry_request k \<and>
                             (postData (entry_request k) = None \<or>
                              (\<exists>pd. postData (entry_request k) = Some pd \<and>
                                    (postData_text pd = None \<or> postData_text pd = Some []))
                                \<longrightarrow> requestData r = JObject []))
                     (filter (keeps host) (entries (log har))) requests"
  proof (rule list_all2_mono)
    fix k r
    assume "toRecord k = Inr r"
    from toRecord_explicit [OF this]
    show "request r = entry_request k \<and>
          (postData (entry_request k) = None \<or>
           (\<exists>pd. postData (entry_request k) = Some pd \<and>
                 (postData_text pd = None \<or> postData_text pd = Some []))
             \<longrightarrow> requestData r = JObject [])"
      by blast
  qed
  with res show "\<exists>requests.
                   fst (readHarFile C path host s) = Resolved requests \<and>
                   list_all2
                     (\<lambda>k r. request r = entry_request k \<and>
                             (postData (entry_request k) = None \<or>
                              (\<exists>pd. postData (entry_request k) = Some pd \<and>
                                    (postData_text pd = None \<or> postData_text pd = Some []))
                                \<longrightarrow> requestData r = JObject []))
                     (filter (keeps host) (entries (log har))) requests"
    by blast
qed

theorem unparsable_body_aborts_witness:
  "form_entry \<in> set (entries (log form_har)) \<and> keeps ''localhost:3000'' form_entry \<and>
   postData (entry_request form_entry) = Some \<lparr>postData_text = Some ''user=ann&next=home''\<rparr> \<and>
   JSON_parse ''user=ann&next=home'' = None \<and>
   xgrRequests ''localhost:3000'' (entries (log form_har)) = Inl SyntaxError \<and>
   \<not> fulfilled (fst (readHarFile (steady (Data (HarDoc form_har))) ''a.mocks.temp.har''
                       ''localhost:3000'' ((), []))) \<and>
   filter (keeps ''localhost:3000'') (entries (log ping_har))
     = [api_entry, post_entry, empty_body_entry] \<and>
   fst (readHarFile (steady (Data (HarDoc ping_har))) ''a.mocks.temp.har'' ''localhost:3000'' ((), []))
     = Resolved [api_record, post_record, empty_body_record] \<and>
   postData (entry_request api_entry) = None \<and> requestData api_record = JObject [] \<and>
   postData (entry_request empty_body_entry) = Some \<lparr>postData_text = Some []\<rparr> \<and>
   requestData empty_body_record = JObject [] \<and>
   request empty_body_record = entry_request empty_body_entry"
proof -
  have f1: "form_entry \<in> set (entries (log form_har))"
    by (simp add: form_har_def har_of_def)
  have f2: "keeps ''localhost:3000'' form_entry" by code_simp
  have f3: "postData (entry_request form_entry) = Some \<lparr>postData_text = Some ''user=ann&next=home''\<rparr>"
    by (simp add: form_entry_def)
  have f4: "JSON_parse ''user=ann&next=home'' = None" by code_simp
  have f5: "fs_readFile (steady (Data (HarDoc form_har))) ''a.mocks.temp.har'' (fst ((), []))
              = Data (HarDoc form_har)"
    by (rule steady_read)
  from unparsable_body_aborts [OF f5, of form_entry "''localhost:3000''"
         "\<lparr>postData_text = Some ''user=ann&next=home''\<rparr>" "''user=ann&next=home''"] f1 f2 f3 f4
  have a: "xgrRequests ''localhost:3000'' (entries (log form_har)) = Inl SyntaxError \<and>
           \<not> fulfilled (fst (readHarFile (steady (Data (HarDoc form_har))) ''a.mocks.temp.har''
                               ''localhost:3000'' ((), [])))"
    by simp
  have d1: "fs_readFile (steady (Data (HarDoc ping_har))) ''a.mocks.temp.har'' (fst ((), []))
              = Data (HarDoc ping_har)"
    by (rule steady_read)
  have d2: "fst (readHarFile (steady (Data (HarDoc ping_har))) ''a.mocks.temp.har'' ''localhost:3000'' ((), []))
              = Resolved [api_record, post_record, empty_body_record]"
    by code_simp
  have d3: "filter (keeps ''localhost:3000'') (entries (log ping_har))
              = [api_entry, post_entry, empty_body_entry]"
    by code_simp
  have nk: "\<not> keeps ''localhost:3000'' page_entry" by code_simp
  have p1: "JSON_parse (base64_toString ''eyJpdGVtcyI6W119'') \<noteq> None" by code_simp
  have p2: "JSON_parse ''[1,2]'' \<noteq> None" by code_simp
  have p3: "JSON_parse (base64_toString ''e30='') \<noteq> None" by code_simp
  have good: "\<forall>k\<in>set (entries (log ping_har)). keeps ''localhost:3000'' k \<longrightarrow>
             (\<forall>pd t. postData (entry_request k) = Some pd \<and> postData_text pd = Some t \<and> t \<noteq> []
                \<longrightarrow> JSON_parse t \<noteq> None) \<and>
             (\<forall>t. content_text (content (entry_response k)) = Some t \<and> t \<noteq> []
                \<longrightarrow> JSON_parse (base64_toString t) \<noteq> None)"
    using nk p1 p2 p3
    by (auto simp: ping_har_def har_of_def api_entry_def post_entry_def empty_body_entry_def)
  have b1: "postData (entry_request api_entry) = None" by (simp add: api_entry_def)
  have b2: "postData (entry_request empty_body_entry) = Some \<lparr>postData_text = Some []\<rparr>"
    by (simp add: empty_body_entry_def)
  from unparsable_body_aborts [OF d1, where host = "''localhost:3000''", THEN conjunct2, THEN mp, OF good]
  obtain requests where
    r: "fst (readHarFile (steady (Data (HarDoc ping_har))) ''a.mocks.temp.har'' ''localhost:3000'' ((), []))
          = Resolved requests"
    and l: "list_all2
          (\<lambda>k r. request r = entry_request k \<and>
                  (postData (entry_request k) = None \<or>
                   (\<exists>pd. postData (entry_request k) = Some pd \<and>
                         (postData_text pd = None \<or> postData_text pd = Some []))
                     \<longrightarrow> requestData r = JObject []))
          (filter (keeps ''localhost:3000'') (entries (log ping_har))) requests"
    by blast
  from r d2 have "requests = [api_record, post_record, empty_body_record]" by simp
  with l d3 have "list_all2
          (\<lambda>k r. request r = entry_request k \<and>
                  (postData (entry_request k) = None \<or>
                   (\<exists>pd. postData (entry_request k) = Some pd \<and>
                         (postData_text pd = None \<or> postData_text pd = Some []))
                     \<longrightarrow> requestData r = JObject []))
          [api_entry, post_entry, empty_body_entry] [api_record, post_record, empty_body_record]"
    by simp
  with b1 b2 have b: "requestData api_record = JObject [] \<and>
                      requestData empty_body_record = JObject [] \<and>
                      request empty_body_record = entry_request empty_body_entry"
    by simp
  from f1 f2 f3 f4 a d2 d3 b1 b2 b show ?thesis by simp
qed

text \<open>
  Against C3 as stated: a form post (its body is not JSON) after a JSON call that would
  have given a record. The map throws: there is no mock set, with or without the record the
  claim promises for the form post.
\<close>

theorem form_body_discards_batch:
  "keeps ''localhost:3000'' api_entry \<and> keeps ''localhost:3000'' form_entry \<and>
   postData (entry_request form_entry) = Some \<lparr>postData_text = Some ''user=ann&next=home''\<rparr> \<and>
   JSON_parse ''user=ann&next=home'' = None \<and>
   xgrRequests ''localhost:3000'' [api_entry, form_entry] = Inl SyntaxError \<and>
   \<not> fulfilled (fst (readHarFile (steady (Data (HarDoc (har_of [api_entry, form_entry]))))
                       ''a.mocks.temp.har'' ''localhost:3000'' ((), [])))"
proof -
  have "keeps ''localhost:3000'' api_entry" by code_simp
  moreover have "keeps ''localhost:3000'' form_entry" by code_simp
  moreover have "postData (entry_request form_entry) = Some \<lparr>postData_text = Some ''user=ann&next=home''\<rparr>"
    by (simp add: form_entry_def)
  moreover have "JSON_parse ''user=ann&next=home'' = None" by code_simp
  moreover have "xgrRequests ''localhost:3000'' [api_entry, form_entry] = Inl SyntaxError"
    by code_simp
  moreover have "\<not> fulfilled (fst (readHarFile (steady (Data (HarDoc (har_of [api_entry, form_entry]))))
                       ''a.mocks.temp.har'' ''localhost:3000'' ((), [])))"
    by code_simp
  ultimately show ?thesis by blast
qed

text \<open>
  C4. The code waits for \<open>filePath\<close>, the mock file, not for the HAR file. In a world where
  the HAR file is there and the mock file is not (it is written only later, at line 90) the
  wait fails, the HAR file is removed unread and the capture yields the empty list.
\<close>

theorem waits_for_mock_file:
  "recordHar (har_only ''a.mocks.temp.har'' (Data (HarDoc demo_har))) ''http://localhost:3000/''
     (Some ''a.mocks.json'') False ((), [])
     = (Resolved [],
        ((), [LaunchPersistentContext ''a.mocks.temp.har'', NewPage, Goto ''http://localhost:3000/'',
              ConsoleLog ''Recording requests'', Pause, Close, ConsoleLog ''Processing recording...'',
              WaitForFileExists ''a.mocks.json'', ConsoleError (Failure ''CaptureArtifactMissing''),
              RemoveFile ''a.mocks.temp.har'']))"
  by code_simp




text \<open>
  C6. A form post among the entries makes \<open>JSON.parse\<close> throw inside the callback of the
  read. The promise of \<open>readHarFile\<close> never settles, the \<open>catch\<close> block does not run, and
  the run ends with the read: \<open>removeFile\<close> is never called and the HAR file stays.
\<close>

theorem har_file_left_behind:
  "recordHar (steady (Data (HarDoc form_har))) ''http://localhost:3000/'' (Some ''a.mocks.json'')
     False ((), [])
     = (Uncaught SyntaxError,
        ((), [LaunchPersistentContext ''a.mocks.temp.har'', NewPage, Goto ''http://localhost:3000/'',
              ConsoleLog ''Recording requests'', Pause, Close, ConsoleLog ''Processing recording...'',
              WaitForFileExists ''a.mocks.json'', ReadFile ''a.mocks.temp.har'']))"
  by code_simp



text \<open>
  C8, as amended. When \<open>filePath\<close> holds \<open>.json\<close>, the HAR path differs from it, and the
  browser is launched with the HAR path and no other: the session never records to the
  mock file.
\<close>

theorem har_path_distinct:
  assumes "filePath = a @ ''.json'' @ b"
  shows "harPathOf filePath \<noteq> filePath \<and>
         (\<forall>p. LaunchPersistentContext p
                 \<in> set (snd (snd (recordHar C route (Some filePath) logRecording (w, []))))
               \<longrightarrow> p = harPathOf filePath \<and> p \<noteq> filePath)"
proof -
  from assms have "length (harPathOf filePath) + length ''.json'' = length filePath + length ''.temp.har''"
    unfolding harPathOf_def by (rule replace_length)
  then have "length (harPathOf filePath) \<noteq> length filePath" by simp
  then have "harPathOf filePath \<noteq> filePath" by auto
  then show ?thesis by (auto dest: recordHar_launch)
qed

theorem har_path_distinct_witness:
  "''a.mocks.json'' = ''a.mocks'' @ ''.json'' @ [] \<and>
   harPathOf ''a.mocks.json'' = ''a.mocks.temp.har'' \<and>
   harPathOf ''a.mocks.json'' \<noteq> ''a.mocks.json'' \<and>
   LaunchPersistentContext ''a.mocks.temp.har''
     \<in> set (snd (snd (recordHar (steady (Data (HarDoc demo_har))) ''http://localhost:3000/''
                         (Some ''a.mocks.json'') False ((), [])))) \<and>
   ''a.mocks.temp.har'' \<noteq> ''a.mocks.json''"
proof -
  have h1: "''a.mocks.json'' = ''a.mocks'' @ ''.json'' @ []" by simp
  have h2: "harPathOf ''a.mocks.json'' = ''a.mocks.temp.har''" by code_simp
  have h3: "LaunchPersistentContext ''a.mocks.temp.har''
     \<in> set (snd (snd (recordHar (steady (Data (HarDoc demo_har))) ''http://localhost:3000/''
                         (Some ''a.mocks.json'') False ((), []))))"
    by code_simp
  note t = har_path_distinct [OF h1, of "steady (Data (HarDoc demo_har))" "''http://localhost:3000/''" False "()"]
  from t have "harPathOf ''a.mocks.json'' \<noteq> ''a.mocks.json''" by blast
  moreover from t h3 have "''a.mocks.temp.har'' \<noteq> ''a.mocks.json''" by blast
  ultimately show ?thesis using h1 h2 h3 by blast
qed

text \<open>
  Against C8 as stated: a \<open>filePath\<close> without \<open>.json\<close> is its own HAR path. The browser
  records to the very file the mock set is then written to, and that file is removed.
\<close>

theorem har_path_same_without_json:
  "harPathOf ''recording.mocks'' = ''recording.mocks'' \<and>
   snd (snd (recordHar (steady (Data (HarDoc demo_har))) ''http://localhost:3000/''
               (Some ''recording.mocks'') False ((), [])))
     = [LaunchPersistentContext ''recording.mocks'', NewPage, Goto ''http://localhost:3000/'',
        ConsoleLog ''Recording requests'', Pause, Close, ConsoleLog ''Processing recording...'',
        WaitForFileExists ''recording.mocks'', ReadFile ''recording.mocks'',
        WriteFile ''recording.mocks'' [api_record, post_record], RemoveFile ''recording.mocks'',
        ConsoleLog ''Recording successfully saved!'']"
proof -
  have "harPathOf ''recording.mocks'' = ''recording.mocks''" by code_simp
  moreover have "snd (snd (recordHar (steady (Data (HarDoc demo_har))) ''http://localhost:3000/''
               (Some ''recording.mocks'') False ((), [])))
     = [LaunchPersistentContext ''recording.mocks'', NewPage, Goto ''http://localhost:3000/'',
        ConsoleLog ''Recording requests'', Pause, Close, ConsoleLog ''Processing recording...'',
        WaitForFileExists ''recording.mocks'', ReadFile ''recording.mocks'',
        WriteFile ''recording.mocks'' [api_record, post_record], RemoveFile ''recording.mocks'',
        ConsoleLog ''Recording successfully saved!'']"
    by code_simp
  ultimately show ?thesis by blast
qed

text \<open>
  C9. The mock set keeps the order of the capture: the requests of its records are the
  requests of the entries that pass the filter, in the order of the trace.
\<close>

theorem order_preserved:
  assumes read: "fs_readFile C path (fst s) = Data (HarDoc har)"
    and resolved: "fst (readHarFile C path host s) = Resolved requests"
  shows "map request requests = map entry_request (filter (keeps host) (entries (log har))) \<and>
         subseq (map request requests) (map entry_request (entries (log har)))"
proof -
  have eq: "map request requests = map entry_request (filter (keeps host) (entries (log har)))"
    using read resolved by (simp add: readHarFile_Resolved xgrRequests_requests)
  have "subseq (filter (keeps host) (entries (log har))) (entries (log har))"
    by (rule subseq_filter_left)
  then have "subseq (map entry_request (filter (keeps host) (entries (log har))))
                    (map entry_request (entries (log har)))"
    by (rule subseq_map)
  with eq show ?thesis by simp
qed

theorem order_preserved_witness:
  "fst (readHarFile (steady (Data (HarDoc demo_har))) ''a.mocks.temp.har'' ''localhost:3000'' ((), []))
     = Resolved [api_record, post_record] \<and>
   map request [api_record, post_record] = [entry_request api_entry, entry_request post_entry] \<and>
   subseq (map request [api_record, post_record])
     (map entry_request [page_entry, api_entry, image_entry, post_entry])"
proof -
  have h1: "fs_readFile (steady (Data (HarDoc demo_har))) ''a.mocks.temp.har'' (fst ((), []))
              = Data (HarDoc demo_har)"
    by (rule steady_read)
  have h2: "fst (readHarFile (steady (Data (HarDoc demo_har))) ''a.mocks.temp.har'' ''localhost:3000'' ((), []))
              = Resolved [api_record, post_record]"
    by code_simp
  have h3: "map request [api_record, post_record] = [entry_request api_entry, entry_request post_entry]"
    by (simp add: api_record_def post_record_def)
  from order_preserved [OF h1 h2] h2 h3 show ?thesis
    by (simp add: demo_har_def har_of_def)
qed

text \<open>
  C10. With \<open>filePath\<close> left out, \<open>recordHar\<close> throws a \<open>TypeError\<close> at once: the world and
  the list of calls are as they were, so no session was opened and no file touched.
\<close>

theorem undefined_filePath_throws:
  "recordHar C route None logRecording s = (Rejected TypeError, s)"
  by (simp add: recordHar_def)

theorem undefined_filePath_throws_witness:
  "recordHar (steady (Data (HarDoc demo_har))) ''http://localhost:3000/'' None True ((), [])
     = (Rejected TypeError, ((), []))"
  by (rule undefined_filePath_throws)

end
